theory Spec2Isabelle
  imports Main "HOL-Library.Word" "HOL-Library.Monad_Syntax"
begin

unbundle bit_operations_syntax

section \<open>Data model\<close>

text \<open>
  The package stores a hashed password as a five-field struct and comes in two variants:
  \<open>PWHash\<close> (with \<open>MarshalBinary\<close>, \<open>UnmarshalBinary\<close>, \<open>UnmarshalText\<close>) and the
  lower-level \<open>PWDataV3\<close> (with \<open>pack\<close>, \<open>unpack\<close>, \<open>fromBase64\<close>, \<open>VerifyHash\<close>).
  Go's \<open>uint8\<close> and \<open>uint32\<close> are words; Go's \<open>int\<close> is taken at its 64-bit width.
  A byte slice is a list of bytes; a Go string is a list of characters (a \<open>char\<close> is one byte).
  A run-time panic (index or slice bound out of range, or \<open>panic(err)\<close> in \<open>Must\<close>) is the
  value \<open>None\<close> of the option monad; an \<open>error\<close> return value is \<open>error option\<close>, with
  \<open>None\<close> for Go's \<open>nil\<close>.
\<close>

type_synonym byte = "8 word"
type_synonym uint32 = "32 word"
type_synonym goint = "64 word"

text \<open>
  The four exported error values, and the errors made by \<open>fmt.Errorf\<close>, which are
  fresh values identified by their message.
\<close>

datatype error = ErrCorrupt | ErrVersion | ErrFunction | ErrParameter | Errorf string

record PWHash =
  ver :: byte
  "prf" :: uint32
  iter :: uint32
  salt :: "byte list"
  hash :: "byte list"

record PWDataV3 =
  ver :: byte
  "prf" :: uint32
  iter :: uint32
  salt :: "byte list"
  hash :: "byte list"

definition v3 :: byte where
  "v3 = 1"

definition prfSHA256 :: uint32 where
  "prfSHA256 = 1"

definition DefaultIter :: goint where
  "DefaultIter = 10000"

definition DefaultSaltLen :: nat where
  "DefaultSaltLen = 16"

definition hdrLength :: nat where
  "hdrLength = 1 + 3 * 4"

definition sha256_Size :: nat where
  "sha256_Size = 32"

section \<open>Slices and big-endian integers\<close>

text \<open>\<open>a[i]\<close>: panics when \<open>i\<close> is out of range.\<close>

definition at_index :: "byte list \<Rightarrow> nat \<Rightarrow> byte option" where
  "at_index a i = (if i < length a then Some (a ! i) else None)"

text \<open>\<open>a[lo:]\<close> and \<open>a[lo:hi]\<close>: panic when the bounds are out of range.\<close>

definition slice_lo :: "byte list \<Rightarrow> nat \<Rightarrow> byte list option" where
  "slice_lo a lo = (if lo \<le> length a then Some (drop lo a) else None)"

definition slice_lo_hi :: "byte list \<Rightarrow> nat \<Rightarrow> nat \<Rightarrow> byte list option" where
  "slice_lo_hi a lo hi =
     (if lo \<le> hi \<and> hi \<le> length a then Some (take (hi - lo) (drop lo a)) else None)"

text \<open>\<open>out[i] = v\<close>.\<close>

definition set_index :: "byte list \<Rightarrow> nat \<Rightarrow> byte \<Rightarrow> byte list option" where
  "set_index out i v = (if i < length out then Some (out[i := v]) else None)"

text \<open>
  \<open>binary.BigEndian.Uint32(b)\<close>: panics when \<open>b\<close> has fewer than four bytes, and is
  \<open>uint32(b[3]) | uint32(b[2])<<8 | uint32(b[1])<<16 | uint32(b[0])<<24\<close> otherwise.
\<close>

definition Uint32 :: "byte list \<Rightarrow> uint32 option" where
  "Uint32 b =
     (if length b < 4 then None
      else Some (ucast (b ! 3) OR push_bit 8 (ucast (b ! 2)) OR
                 push_bit 16 (ucast (b ! 1)) OR push_bit 24 (ucast (b ! 0))))"

text \<open>
  \<open>binary.BigEndian.PutUint32(out[off:], v)\<close>: the slice expression panics when \<open>off\<close>
  exceeds the length, the store panics when fewer than four bytes remain; otherwise
  \<open>b[0] = byte(v >> 24)\<close>, \<open>b[1] = byte(v >> 16)\<close>, \<open>b[2] = byte(v >> 8)\<close>,
  \<open>b[3] = byte(v)\<close> are written through to \<open>out\<close>.
\<close>

definition PutUint32 :: "byte list \<Rightarrow> nat \<Rightarrow> uint32 \<Rightarrow> byte list option" where
  "PutUint32 out off v =
     (if length out < off + 4 then None
      else Some (out[off := ucast (drop_bit 24 v),
                     off + 1 := ucast (drop_bit 16 v),
                     off + 2 := ucast (drop_bit 8 v),
                     off + 3 := ucast v]))"

text \<open>
  \<open>copy(out[off:], src)\<close>: the slice expression panics when \<open>off\<close> exceeds the length;
  \<open>copy\<close> itself moves as many bytes as fit in the destination.
\<close>

definition copy_at :: "byte list \<Rightarrow> nat \<Rightarrow> byte list \<Rightarrow> byte list option" where
  "copy_at out off src =
     (if length out < off then None
      else let n = min (length out - off) (length src)
           in Some (take off out @ take n src @ drop (off + n) out))"

section \<open>The binary codec of PWHash\<close>

text \<open>
  \<open>MarshalBinary\<close> returns the bytes and a nil error. The buffer is allocated zeroed and
  filled in place, field by field.
\<close>

definition MarshalBinary :: "PWHash \<Rightarrow> (byte list \<times> error option) option" where
  "MarshalBinary pd = do {
     let out = replicate (hdrLength + length (PWHash.salt pd) + length (PWHash.hash pd)) 0;
     out \<leftarrow> set_index out 0 (PWHash.ver pd);
     out \<leftarrow> PutUint32 out 1 (PWHash.prf pd);
     out \<leftarrow> PutUint32 out (1 + 4) (PWHash.iter pd);
     out \<leftarrow> PutUint32 out (1 + 4 + 4) (of_nat (length (PWHash.salt pd)));
     out \<leftarrow> copy_at out hdrLength (PWHash.salt pd);
     out \<leftarrow> copy_at out (hdrLength + length (PWHash.salt pd)) (PWHash.hash pd);
     Some (out, None)
   }"

text \<open>
  \<open>UnmarshalBinary\<close> checks every field into local variables and assigns to the
  receiver only after the last check. The result is the returned error and the receiver
  after the call. The comparisons of the salt length and of the total length are made on
  \<open>uint32\<close>, the length of the input being converted with \<open>uint32(len(a))\<close>.
\<close>

definition UnmarshalBinary :: "PWHash \<Rightarrow> byte list \<Rightarrow> (error option \<times> PWHash) option" where
  "UnmarshalBinary pd a =
     (if length a < hdrLength then Some (Some ErrCorrupt, pd)
      else do {
        ver' \<leftarrow> at_index a 0;
        if ver' \<noteq> v3 then Some (Some ErrVersion, pd)
        else do {
          prf' \<leftarrow> slice_lo a 1 \<bind> Uint32;
          if prf' \<noteq> prfSHA256 then Some (Some ErrFunction, pd)
          else do {
            iter' \<leftarrow> slice_lo a (1 + 4) \<bind> Uint32;
            if iter' < 1 \<or> iter' > 100000 then Some (Some ErrParameter, pd)
            else do {
              saltlen \<leftarrow> slice_lo a (1 + 4 + 4) \<bind> Uint32;
              if saltlen < 1 \<or> saltlen > 64 then Some (Some ErrParameter, pd)
              else if of_nat hdrLength + saltlen + of_nat sha256_Size \<noteq> (of_nat (length a) :: uint32)
              then Some (Some ErrCorrupt, pd)
              else do {
                salt' \<leftarrow> slice_lo_hi a hdrLength (unat (of_nat hdrLength + saltlen));
                hash' \<leftarrow> slice_lo a (unat (of_nat hdrLength + saltlen));
                Some (None, pd\<lparr>PWHash.ver := ver', PWHash.prf := prf', PWHash.iter := iter',
                                PWHash.salt := salt', PWHash.hash := hash'\<rparr>)
              }
            }
          }
        }
      })"

section \<open>The binary codec of PWDataV3\<close>

definition pack :: "PWDataV3 \<Rightarrow> byte list option" where
  "pack d = do {
     let out = replicate (hdrLength + length (salt d) + length (hash d)) 0;
     out \<leftarrow> set_index out 0 (ver d);
     out \<leftarrow> PutUint32 out 1 (prf d);
     out \<leftarrow> PutUint32 out (1 + 4) (iter d);
     out \<leftarrow> PutUint32 out (1 + 4 + 4) (of_nat (length (salt d)));
     out \<leftarrow> copy_at out hdrLength (salt d);
     out \<leftarrow> copy_at out (hdrLength + length (salt d)) (hash d);
     Some out
   }"

text \<open>
  \<open>unpack\<close> assigns each field to the receiver as soon as it is read, before checking it.
\<close>

definition unpack :: "PWDataV3 \<Rightarrow> byte list \<Rightarrow> (error option \<times> PWDataV3) option" where
  "unpack d a =
     (if length a < hdrLength then Some (Some ErrCorrupt, d)
      else do {
        v \<leftarrow> at_index a 0;
        let d = d\<lparr>ver := v\<rparr>;
        if ver d \<noteq> v3 then Some (Some ErrVersion, d)
        else do {
          p \<leftarrow> slice_lo a 1 \<bind> Uint32;
          let d = d\<lparr>prf := p\<rparr>;
          if prf d \<noteq> prfSHA256 then Some (Some ErrFunction, d)
          else do {
            i \<leftarrow> slice_lo a (1 + 4) \<bind> Uint32;
            let d = d\<lparr>iter := i\<rparr>;
            if iter d > 100000 then Some (Some ErrParameter, d)
            else do {
              saltlen \<leftarrow> slice_lo a (1 + 4 + 4) \<bind> Uint32;
              if saltlen > 64 then Some (Some ErrParameter, d)
              else if of_nat hdrLength + saltlen \<ge> (of_nat (length a) :: uint32)
              then Some (Some ErrCorrupt, d)
              else do {
                s \<leftarrow> slice_lo_hi a hdrLength (unat (of_nat hdrLength + saltlen));
                let d = d\<lparr>salt := s\<rparr>;
                h \<leftarrow> slice_lo a (unat (of_nat hdrLength + saltlen));
                let d = d\<lparr>hash := h\<rparr>;
                Some (None, d)
              }
            }
          }
        }
      })"

section \<open>Key derivation and verification\<close>

text \<open>
  \<open>pbkdf2.Key(password, salt, iter, keyLen, sha256.New)\<close> belongs to an external
  package: it is a parameter of the model, a function of the password bytes, the salt,
  the iteration count (a Go \<open>int\<close>) and the key length.
\<close>

type_synonym kdf = "byte list \<Rightarrow> byte list \<Rightarrow> goint \<Rightarrow> nat \<Rightarrow> byte list"

definition hashPW :: "kdf \<Rightarrow> string \<Rightarrow> byte list \<Rightarrow> goint \<Rightarrow> byte list" where
  "hashPW Key password salt' iter' = Key (map of_char password) salt' iter' sha256_Size"

text \<open>
  \<open>subtle.ConstantTimeByteEq\<close> and \<open>subtle.ConstantTimeCompare\<close> of Go's standard
  library: \<open>int((uint32(x^y) - 1) >> 31)\<close>, and the loop
  \<open>for i := 0; i < len(x); i++ { v |= x[i] ^ y[i] }\<close> after the comparison of the lengths.
\<close>

definition ConstantTimeByteEq :: "byte \<Rightarrow> byte \<Rightarrow> int" where
  "ConstantTimeByteEq x y = uint (drop_bit 31 ((ucast (x XOR y) :: uint32) - 1))"

definition ConstantTimeCompare :: "byte list \<Rightarrow> byte list \<Rightarrow> int" where
  "ConstantTimeCompare x y =
     (if length x \<noteq> length y then 0
      else ConstantTimeByteEq (fold (\<lambda>i v. v OR (x ! i XOR y ! i)) [0..<length x] 0) 0)"

text \<open>\<open>int(pd.iter)\<close> widens the \<open>uint32\<close> to Go's \<open>int\<close>.\<close>

definition Verify :: "kdf \<Rightarrow> PWHash \<Rightarrow> string \<Rightarrow> bool" where
  "Verify Key pd pw =
     (let dk = hashPW Key pw (PWHash.salt pd) (ucast (PWHash.iter pd))
      in ConstantTimeCompare (PWHash.hash pd) dk = 1)"

definition VerifyPassword :: "kdf \<Rightarrow> PWDataV3 \<Rightarrow> string \<Rightarrow> bool" where
  "VerifyPassword Key d pw =
     (let dk = hashPW Key pw (salt d) (ucast (iter d))
      in ConstantTimeCompare (hash d) dk = 1)"

section \<open>Construction from a password\<close>

text \<open>
  The random source is an external capability. At a call it either fails with a
  diagnostic or supplies bytes; a successful read fills the whole buffer.
\<close>

type_synonym rand_source = "string + (nat \<Rightarrow> byte)"

definition rand_Read :: "rand_source \<Rightarrow> nat \<Rightarrow> string + byte list" where
  "rand_Read rnd n = (case rnd of Inl err \<Rightarrow> Inl err | Inr f \<Rightarrow> Inr (map f [0..<n]))"

text \<open>
  \<open>New\<close> of \<open>PWHash\<close> and \<open>NewFromPassword\<close> of \<open>PWDataV3\<close>. The iteration count
  is a Go \<open>int\<close>; it is handed to the key derivation as it is and stored as
  \<open>uint32(iter)\<close>.
\<close>

definition New :: "rand_source \<Rightarrow> kdf \<Rightarrow> string \<Rightarrow> goint \<Rightarrow> error + PWHash" where
  "New rnd Key pw iter' =
     (case rand_Read rnd DefaultSaltLen of
        Inl err \<Rightarrow> Inl (Errorf (''cannot make salt value: '' @ err))
      | Inr salt' \<Rightarrow>
          Inr \<lparr>PWHash.ver = v3, prf = prfSHA256, iter = ucast iter', salt = salt',
               hash = hashPW Key pw salt' iter'\<rparr>)"

definition NewFromPassword :: "rand_source \<Rightarrow> kdf \<Rightarrow> string \<Rightarrow> goint \<Rightarrow> error + PWDataV3" where
  "NewFromPassword rnd Key pw iter' =
     (case rand_Read rnd DefaultSaltLen of
        Inl err \<Rightarrow> Inl (Errorf (''cannot make salt value: '' @ err))
      | Inr salt' \<Rightarrow>
          (let dk = hashPW Key pw salt' iter'
           in Inr \<lparr>ver = v3, prf = prfSHA256, iter = ucast iter', salt = salt', hash = dk\<rparr>))"

text \<open>\<open>Must\<close> panics when it is given an error.\<close>

definition Must :: "error + PWDataV3 \<Rightarrow> PWDataV3 option" where
  "Must r = (case r of Inl err \<Rightarrow> None | Inr pw \<Rightarrow> Some pw)"

section \<open>The text codec and VerifyHash\<close>

text \<open>
  The base64 decoder belongs to Go's standard library: it is a parameter of the model,
  giving either the diagnostic of its error or the decoded bytes (\<open>out[:n]\<close> for
  \<open>Decode\<close>).
\<close>

definition UnmarshalText ::
  "(byte list \<Rightarrow> string + byte list) \<Rightarrow> PWHash \<Rightarrow> byte list \<Rightarrow> (error option \<times> PWHash) option" where
  "UnmarshalText Decode pd text' =
     (case Decode text' of
        Inl err \<Rightarrow> Some (Some (Errorf (''password encoding: '' @ err)), pd)
      | Inr out \<Rightarrow> UnmarshalBinary pd out)"

text \<open>The zero value \<open>&PWDataV3{}\<close>; a nil slice is the empty list.\<close>

definition zero_PWDataV3 :: PWDataV3 where
  "zero_PWDataV3 = \<lparr>ver = 0, prf = 0, iter = 0, salt = [], hash = []\<rparr>"

definition fromBase64 :: "(string \<Rightarrow> string + byte list) \<Rightarrow> string \<Rightarrow> (error + PWDataV3) option" where
  "fromBase64 DecodeString s =
     (case DecodeString s of
        Inl err \<Rightarrow> Some (Inl (Errorf (''pw data: '' @ err)))
      | Inr out \<Rightarrow> do {
          (err, pwd) \<leftarrow> unpack zero_PWDataV3 out;
          case err of Some e \<Rightarrow> Some (Inl e) | None \<Rightarrow> Some (Inr pwd)
        })"

definition VerifyHash ::
  "(string \<Rightarrow> string + byte list) \<Rightarrow> rand_source \<Rightarrow> kdf \<Rightarrow> string \<Rightarrow> string
     \<Rightarrow> (bool \<times> error option) option" where
  "VerifyHash DecodeString rnd Key hash' pw = do {
     r \<leftarrow> fromBase64 DecodeString hash';
     case r of
       Inl err \<Rightarrow> do {
         d \<leftarrow> Must (NewFromPassword rnd Key [] DefaultIter);
         Some (ConstantTimeCompare (hash d) (hash d) \<noteq> 1, Some err)
       }
     | Inr d \<Rightarrow>
         (let dk = hashPW Key pw (salt d) (ucast (iter d))
          in Some (ConstantTimeCompare (hash d) dk = 1, None))
   }"

section \<open>Notions used to state the properties\<close>

text \<open>The four bytes of a \<open>uint32\<close>, most significant first, and the value of four such bytes.\<close>

definition be32 :: "uint32 \<Rightarrow> byte list" where
  "be32 v = [ucast (drop_bit 24 v), ucast (drop_bit 16 v), ucast (drop_bit 8 v), ucast v]"

definition u32 :: "byte \<Rightarrow> byte \<Rightarrow> byte \<Rightarrow> byte \<Rightarrow> uint32" where
  "u32 b0 b1 b2 b3 = ucast b3 OR push_bit 8 (ucast b2) OR push_bit 16 (ucast b1) OR push_bit 24 (ucast b0)"

text \<open>
  The error kinds of the specification, which classes errors by kind and not by value:
  a failure of the text layer is of kind \<open>Corrupt\<close>, a failure of the random source of
  kind \<open>RandomSourceFailure\<close>.
\<close>

datatype error_kind = Corrupt | Version | Function | Parameter | RandomSourceFailure

fun spec_kind :: "error \<Rightarrow> error_kind" where
  "spec_kind ErrCorrupt = Corrupt"
| "spec_kind ErrVersion = Version"
| "spec_kind ErrFunction = Function"
| "spec_kind ErrParameter = Parameter"
| "spec_kind (Errorf m) =
     (if take (length ''cannot make salt value: '') m = ''cannot make salt value: ''
      then RandomSourceFailure else Corrupt)"

text \<open>The constraints of the specification's data model on a record.\<close>

definition valid_PWHash :: "PWHash \<Rightarrow> bool" where
  "valid_PWHash r \<longleftrightarrow>
     PWHash.ver r = 1 \<and> PWHash.prf r = 1 \<and> 1 \<le> PWHash.iter r \<and> PWHash.iter r \<le> 100000 \<and>
     1 \<le> length (PWHash.salt r) \<and> length (PWHash.salt r) \<le> 64 \<and> length (PWHash.hash r) = 32"

definition valid_PWDataV3 :: "PWDataV3 \<Rightarrow> bool" where
  "valid_PWDataV3 r \<longleftrightarrow>
     ver r = 1 \<and> prf r = 1 \<and> 1 \<le> iter r \<and> iter r \<le> 100000 \<and>
     1 \<le> length (salt r) \<and> length (salt r) \<le> 64 \<and> length (hash r) = 32"

text \<open>
  The layout of the specification: the value of the four bytes at an offset, read
  big-endian, and the position of every field in an encoding.
\<close>

definition be_at :: "byte list \<Rightarrow> nat \<Rightarrow> nat" where
  "be_at out k = unat (out ! k) * 2 ^ 24 + unat (out ! (k + 1)) * 2 ^ 16 +
     unat (out ! (k + 2)) * 2 ^ 8 + unat (out ! (k + 3))"

definition laid_out :: "byte list \<Rightarrow> byte \<Rightarrow> uint32 \<Rightarrow> uint32 \<Rightarrow> byte list \<Rightarrow> byte list \<Rightarrow> bool" where
  "laid_out out v p i s h \<longleftrightarrow>
     length out = 13 + length s + 32 \<and> out ! 0 = v \<and>
     be_at out 1 = unat p \<and> be_at out 5 = unat i \<and> be_at out 9 = length s \<and>
     take (length s) (drop 13 out) = s \<and> drop (13 + length s) out = h \<and> length h = 32"

text \<open>
  Values for the examples: the first stored hash of the package's tests with its 61
  bytes and its record, a base64 decoder and a key derivation given on the inputs of
  the examples only, and the zero records.
\<close>

definition example_b64 :: string where
  "example_b64 = ''AQAAAAEAACcQAAAAEO4k5r1SgFuCYAS8xfu/Mnu5iZUqh+DgSRU4IyJpD+mVo4KdbI1BwiF3KcY1V6AapQ==''"

definition example_bytes :: "byte list" where
  "example_bytes = [1, 0, 0, 0, 1, 0, 0, 39, 16, 0, 0, 0, 16,
     238, 36, 230, 189, 82, 128, 91, 130, 96, 4, 188, 197, 251, 191, 50, 123,
     185, 137, 149, 42, 135, 224, 224, 73, 21, 56, 35, 34, 105, 15, 233, 149, 163, 130, 157,
     108, 141, 65, 194, 33, 119, 41, 198, 53, 87, 160, 26, 165]"

definition example_DecodeString :: "string \<Rightarrow> string + byte list" where
  "example_DecodeString s =
     (if s = example_b64 then Inr example_bytes
      else if s = example_b64 @ ''????'' then Inl ''illegal base64 data at input byte 84''
      else Inl ''illegal base64 data at input byte 0'')"

definition example_Decode :: "byte list \<Rightarrow> string + byte list" where
  "example_Decode t =
     (if t = map of_char example_b64 then Inr example_bytes
      else Inl ''illegal base64 data at input byte 84'')"

definition example_Key :: kdf where
  "example_Key password salt' iter' keyLen = replicate keyLen 0"

definition example_PWDataV3 :: PWDataV3 where
  "example_PWDataV3 = \<lparr>ver = 1, prf = 1, iter = 10000,
     salt = [238, 36, 230, 189, 82, 128, 91, 130, 96, 4, 188, 197, 251, 191, 50, 123],
     hash = [185, 137, 149, 42, 135, 224, 224, 73, 21, 56, 35, 34, 105, 15, 233, 149, 163, 130, 157,
       108, 141, 65, 194, 33, 119, 41, 198, 53, 87, 160, 26, 165]\<rparr>"

definition example_PWHash :: PWHash where
  "example_PWHash = \<lparr>PWHash.ver = 1, prf = 1, iter = 10000,
     salt = [238, 36, 230, 189, 82, 128, 91, 130, 96, 4, 188, 197, 251, 191, 50, 123],
     hash = [185, 137, 149, 42, 135, 224, 224, 73, 21, 56, 35, 34, 105, 15, 233, 149, 163, 130, 157,
       108, 141, 65, 194, 33, 119, 41, 198, 53, 87, 160, 26, 165]\<rparr>"

definition zero_PWHash :: PWHash where
  "zero_PWHash = \<lparr>PWHash.ver = 0, prf = 0, iter = 0, salt = [], hash = []\<rparr>"

section \<open>Writing into the zeroed buffer\<close>

lemma length_be32 [simp]: "length (be32 v) = 4"
  by (simp add: be32_def)

lemma set_index_zeros:
  "set_index (replicate (Suc k) 0) 0 v = Some ([v] @ replicate k 0)"
  by (simp add: set_index_def)

lemma upd4:
  "(p @ a0 # a1 # a2 # a3 # r)[length p := b0, length p + 1 := b1, length p + 2 := b2, length p + 3 := b3]
     = p @ b0 # b1 # b2 # b3 # r"
  by (simp add: list_update_append numeral_3_eq_3)

lemma PutUint32_zeros:
  assumes "length p = off" and "4 \<le> k"
  shows "PutUint32 (p @ replicate k 0) off v = Some ((p @ be32 v) @ replicate (k - 4) 0)"
proof -
  obtain j where k: "k = 4 + j"
    using assms(2) le_Suc_ex by blast
  have r: "replicate k (0::byte) = 0 # 0 # 0 # 0 # replicate j 0"
    unfolding k by (simp add: numeral_eq_Suc)
  have l: "\<not> length (p @ replicate k (0::byte)) < off + 4"
    using assms by simp
  show ?thesis
    unfolding PutUint32_def if_not_P [OF l] r assms(1) [symmetric] upd4 be32_def
    by (simp add: k)
qed

lemma copy_at_zeros:
  assumes "length p = off" and "length src \<le> k"
  shows "copy_at (p @ replicate k 0) off src = Some ((p @ src) @ replicate (k - length src) 0)"
  using assms by (simp add: copy_at_def Let_def min_def)

lemma fill_bytes:
  fixes s h :: "byte list"
  shows "do {
     let out = replicate (hdrLength + length s + length h) 0;
     out \<leftarrow> set_index out 0 v;
     out \<leftarrow> PutUint32 out 1 p;
     out \<leftarrow> PutUint32 out (1 + 4) i;
     out \<leftarrow> PutUint32 out (1 + 4 + 4) n;
     out \<leftarrow> copy_at out hdrLength s;
     out \<leftarrow> copy_at out (hdrLength + length s) h;
     k out
   } = k ([v] @ be32 p @ be32 i @ be32 n @ s @ h)"
proof -
  let ?n = "length s + length h"
  have 0: "replicate (hdrLength + length s + length h) (0::byte) = replicate (Suc (12 + ?n)) 0"
    by (simp add: hdrLength_def)
  have 1: "set_index (replicate (Suc (12 + ?n)) 0) 0 v = Some ([v] @ replicate (12 + ?n) 0)"
    by (rule set_index_zeros)
  have 2: "PutUint32 ([v] @ replicate (12 + ?n) 0) 1 p = Some (([v] @ be32 p) @ replicate (8 + ?n) 0)"
    using PutUint32_zeros [of "[v]" 1 "12 + ?n" p] by simp
  have 3: "PutUint32 (([v] @ be32 p) @ replicate (8 + ?n) 0) (1 + 4) i
      = Some ((([v] @ be32 p) @ be32 i) @ replicate (4 + ?n) 0)"
    using PutUint32_zeros [of "[v] @ be32 p" 5 "8 + ?n" i] by simp
  have 4: "PutUint32 ((([v] @ be32 p) @ be32 i) @ replicate (4 + ?n) 0) (1 + 4 + 4) n
      = Some (((([v] @ be32 p) @ be32 i) @ be32 n) @ replicate ?n 0)"
    using PutUint32_zeros [of "([v] @ be32 p) @ be32 i" 9 "4 + ?n" n] by simp
  have 5: "copy_at ((((([v] @ be32 p) @ be32 i) @ be32 n)) @ replicate ?n 0) hdrLength s
      = Some ((((([v] @ be32 p) @ be32 i) @ be32 n) @ s) @ replicate (length h) 0)"
    using copy_at_zeros [of "(([v] @ be32 p) @ be32 i) @ be32 n" 13 s ?n] by (simp add: hdrLength_def)
  have 6: "copy_at ((((([v] @ be32 p) @ be32 i) @ be32 n) @ s) @ replicate (length h) 0) (hdrLength + length s) h
      = Some ((((([v] @ be32 p) @ be32 i) @ be32 n) @ s) @ h)"
    using copy_at_zeros [of "((([v] @ be32 p) @ be32 i) @ be32 n) @ s" "13 + length s" h "length h"]
    by (simp add: hdrLength_def)
  have 7: "(((([v] @ be32 p) @ be32 i) @ be32 n) @ s) @ h = [v] @ be32 p @ be32 i @ be32 n @ s @ h"
    by simp
  show ?thesis
    unfolding Let_def 0 1 bind.bind_lunit 2 3 4 5 6 7 ..
qed

lemma MarshalBinary_bytes:
  "MarshalBinary pd =
     Some ([PWHash.ver pd] @ be32 (PWHash.prf pd) @ be32 (PWHash.iter pd) @
           be32 (of_nat (length (PWHash.salt pd))) @ PWHash.salt pd @ PWHash.hash pd, None)"
  unfolding MarshalBinary_def by (rule fill_bytes)

lemma pack_bytes:
  "pack d = Some ([ver d] @ be32 (prf d) @ be32 (iter d) @ be32 (of_nat (length (salt d))) @ salt d @ hash d)"
  unfolding pack_def by (rule fill_bytes)


section \<open>Reading the header\<close>

lemma Uint32_Cons4: "Uint32 (b0 # b1 # b2 # b3 # r) = Some (u32 b0 b1 b2 b3)"
  by (simp add: Uint32_def u32_def)

lemma be32_u32: "be32 (u32 b0 b1 b2 b3) = [b0, b1, b2, b3]"
proof -
  have "ucast (drop_bit 24 (u32 b0 b1 b2 b3)) = b0"
    unfolding u32_def by (rule bit_word_eqI) (auto simp add: bit_simps dest: bit_imp_le_length)
  moreover have "ucast (drop_bit 16 (u32 b0 b1 b2 b3)) = b1"
    unfolding u32_def by (rule bit_word_eqI) (auto simp add: bit_simps dest: bit_imp_le_length)
  moreover have "ucast (drop_bit 8 (u32 b0 b1 b2 b3)) = b2"
    unfolding u32_def by (rule bit_word_eqI) (auto simp add: bit_simps dest: bit_imp_le_length)
  moreover have "ucast (u32 b0 b1 b2 b3) = b3"
    unfolding u32_def by (rule bit_word_eqI) (auto simp add: bit_simps dest: bit_imp_le_length)
  ultimately show ?thesis by (simp add: be32_def)
qed

lemma u32_be32:
  "u32 (ucast (drop_bit 24 v)) (ucast (drop_bit 16 v)) (ucast (drop_bit 8 v)) (ucast v) = v"
  (is "?w = v")
proof (rule bit_word_eqI)
  fix n :: nat assume "n < LENGTH(32)"
  then have n: "n < 32" by simp
  consider "n < 8" | "8 \<le> n" "n < 16" | "16 \<le> n" "n < 24" | "24 \<le> n" by linarith
  then show "bit ?w n = bit v n"
    using n unfolding u32_def by cases (auto simp add: bit_simps)
qed

lemma Uint32_be32: "Uint32 (be32 v @ r) = Some v"
  by (simp add: be32_def Uint32_Cons4 u32_be32)

lemma ex_Cons: "Suc n \<le> length a \<Longrightarrow> \<exists>x r. a = x # r \<and> n \<le> length r"
  by (cases a) auto

lemma header_split:
  assumes "hdrLength \<le> length a"
  obtains v p0 p1 p2 p3 i0 i1 i2 i3 n0 n1 n2 n3 r
  where "a = v # p0 # p1 # p2 # p3 # i0 # i1 # i2 # i3 # n0 # n1 # n2 # n3 # r"
proof -
  have "Suc (Suc (Suc (Suc (Suc (Suc (Suc (Suc (Suc (Suc (Suc (Suc (Suc 0)))))))))))) \<le> length a"
    using assms by (simp add: hdrLength_def)
  then show thesis
    using that by (metis ex_Cons)
qed


lemma salt_bounds:
  fixes n :: uint32
  assumes "n \<le> 64"
  shows "unat (of_nat hdrLength + n) = hdrLength + unat n"
    and "unat (of_nat hdrLength + n + of_nat sha256_Size) = hdrLength + unat n + sha256_Size"
proof -
  have "unat n \<le> 64" using assms by (simp add: word_le_nat_alt)
  then show "unat (of_nat hdrLength + n) = hdrLength + unat n"
    and "unat (of_nat hdrLength + n + of_nat sha256_Size) = hdrLength + unat n + sha256_Size"
    by (simp_all add: hdrLength_def sha256_Size_def unat_word_ariths)
qed

lemma unat_of_nat_length_le: "unat (of_nat (length a) :: uint32) \<le> length a"
  by (simp add: unat_of_nat)

lemma slices_after_header:
  fixes h r :: "byte list" and n :: uint32
  assumes h: "length h = hdrLength" and le: "n \<le> 64"
    and eq: "of_nat hdrLength + n + of_nat sha256_Size = (of_nat (length (h @ r)) :: uint32)"
  shows "slice_lo_hi (h @ r) hdrLength (unat (of_nat hdrLength + n)) = Some (take (unat n) r)"
    and "slice_lo (h @ r) (unat (of_nat hdrLength + n)) = Some (drop (unat n) r)"
proof -
  have "hdrLength + unat n + sha256_Size = unat (of_nat hdrLength + n + of_nat sha256_Size)"
    by (rule salt_bounds(2) [OF le, symmetric])
  also have "\<dots> = unat (of_nat (length (h @ r)) :: uint32)"
    by (simp only: eq)
  also have "\<dots> \<le> length (h @ r)" by (rule unat_of_nat_length_le)
  finally have b: "unat n \<le> length r" using h by simp
  show "slice_lo_hi (h @ r) hdrLength (unat (of_nat hdrLength + n)) = Some (take (unat n) r)"
    unfolding salt_bounds(1) [OF le] slice_lo_hi_def using b by (simp add: h [symmetric])
  show "slice_lo (h @ r) (unat (of_nat hdrLength + n)) = Some (drop (unat n) r)"
    unfolding salt_bounds(1) [OF le] slice_lo_def using b by (simp add: h [symmetric])
qed


lemma UnmarshalBinary_reads:
  assumes "\<not> length a < hdrLength" and "at_index a 0 = Some v"
    and "slice_lo a 1 \<bind> Uint32 = Some p"
    and "slice_lo a (1 + 4) \<bind> Uint32 = Some i"
    and "slice_lo a (1 + 4 + 4) \<bind> Uint32 = Some n"
  shows "UnmarshalBinary pd a =
    (if v \<noteq> v3 then Some (Some ErrVersion, pd)
     else if p \<noteq> prfSHA256 then Some (Some ErrFunction, pd)
     else if i < 1 \<or> i > 100000 then Some (Some ErrParameter, pd)
     else if n < 1 \<or> n > 64 then Some (Some ErrParameter, pd)
     else if of_nat hdrLength + n + of_nat sha256_Size \<noteq> (of_nat (length a) :: uint32)
       then Some (Some ErrCorrupt, pd)
     else do {
       salt' \<leftarrow> slice_lo_hi a hdrLength (unat (of_nat hdrLength + n));
       hash' \<leftarrow> slice_lo a (unat (of_nat hdrLength + n));
       Some (None, pd\<lparr>PWHash.ver := v, PWHash.prf := p, PWHash.iter := i,
                       PWHash.salt := salt', PWHash.hash := hash'\<rparr>)
     })"
  unfolding UnmarshalBinary_def if_not_P [OF assms(1)] assms(2-) bind.bind_lunit ..

lemma UnmarshalBinary_header:
  fixes r :: "byte list"
  shows "UnmarshalBinary pd (v # p0 # p1 # p2 # p3 # i0 # i1 # i2 # i3 # n0 # n1 # n2 # n3 # r) =
    Some (if v \<noteq> v3 then (Some ErrVersion, pd)
      else if u32 p0 p1 p2 p3 \<noteq> prfSHA256 then (Some ErrFunction, pd)
      else if u32 i0 i1 i2 i3 < 1 \<or> u32 i0 i1 i2 i3 > 100000 then (Some ErrParameter, pd)
      else if u32 n0 n1 n2 n3 < 1 \<or> u32 n0 n1 n2 n3 > 64 then (Some ErrParameter, pd)
      else if of_nat hdrLength + u32 n0 n1 n2 n3 + of_nat sha256_Size \<noteq> (of_nat (hdrLength + length r) :: uint32)
        then (Some ErrCorrupt, pd)
      else (None, pd\<lparr>PWHash.ver := v, PWHash.prf := u32 p0 p1 p2 p3, PWHash.iter := u32 i0 i1 i2 i3,
              PWHash.salt := take (unat (u32 n0 n1 n2 n3)) r, PWHash.hash := drop (unat (u32 n0 n1 n2 n3)) r\<rparr>))"
proof -
  define h where "h = [v, p0, p1, p2, p3, i0, i1, i2, i3, n0, n1, n2, n3]"
  define a where "a = h @ r"
  define n where "n = u32 n0 n1 n2 n3"
  have a: "v # p0 # p1 # p2 # p3 # i0 # i1 # i2 # i3 # n0 # n1 # n2 # n3 # r = a"
    by (simp add: a_def h_def)
  have h: "length h = hdrLength" by (simp add: hdrLength_def h_def)
  have len: "hdrLength + length r = length a" by (simp add: a_def h)
  have nl: "\<not> length a < hdrLength" using len by simp
  have rd: "at_index a 0 = Some v"
    "slice_lo a 1 \<bind> Uint32 = Some (u32 p0 p1 p2 p3)"
    "slice_lo a (1 + 4) \<bind> Uint32 = Some (u32 i0 i1 i2 i3)"
    "slice_lo a (1 + 4 + 4) \<bind> Uint32 = Some n"
    by (simp_all add: a_def h_def n_def at_index_def slice_lo_def Uint32_Cons4)
  note eqn = UnmarshalBinary_reads [OF nl rd, of pd]
  show ?thesis
  proof (cases "n \<le> 64 \<and> of_nat hdrLength + n + of_nat sha256_Size = (of_nat (length a) :: uint32)")
    case True
    then have le: "n \<le> 64"
      and eq: "of_nat hdrLength + n + of_nat sha256_Size = (of_nat (length (h @ r)) :: uint32)"
      by (simp_all add: a_def)
    note sl = slices_after_header [OF h le eq, folded a_def]
    show ?thesis
      unfolding a len n_def [symmetric] eqn sl bind.bind_lunit by simp
  next
    case False
    then show ?thesis
      unfolding a len n_def [symmetric] eqn by (auto simp add: not_le)
  qed
qed

lemma unpack_reads:
  assumes "\<not> length a < hdrLength" and "at_index a 0 = Some v"
    and "slice_lo a 1 \<bind> Uint32 = Some p"
    and "slice_lo a (1 + 4) \<bind> Uint32 = Some i"
    and "slice_lo a (1 + 4 + 4) \<bind> Uint32 = Some n"
  shows "unpack d a =
    (if v \<noteq> v3 then Some (Some ErrVersion, d\<lparr>ver := v\<rparr>)
     else if p \<noteq> prfSHA256 then Some (Some ErrFunction, d\<lparr>ver := v, prf := p\<rparr>)
     else if i > 100000 then Some (Some ErrParameter, d\<lparr>ver := v, prf := p, iter := i\<rparr>)
     else if n > 64 then Some (Some ErrParameter, d\<lparr>ver := v, prf := p, iter := i\<rparr>)
     else if of_nat hdrLength + n \<ge> (of_nat (length a) :: uint32)
       then Some (Some ErrCorrupt, d\<lparr>ver := v, prf := p, iter := i\<rparr>)
     else do {
       s \<leftarrow> slice_lo_hi a hdrLength (unat (of_nat hdrLength + n));
       h \<leftarrow> slice_lo a (unat (of_nat hdrLength + n));
       Some (None, d\<lparr>ver := v, prf := p, iter := i, salt := s, hash := h\<rparr>)
     })"
  unfolding unpack_def if_not_P [OF assms(1)] assms(2-) bind.bind_lunit Let_def
  by simp

lemma slices_after_header_lax:
  fixes h r :: "byte list" and n :: uint32
  assumes h: "length h = hdrLength" and le: "n \<le> 64"
    and lt: "of_nat hdrLength + n < (of_nat (length (h @ r)) :: uint32)"
  shows "slice_lo_hi (h @ r) hdrLength (unat (of_nat hdrLength + n)) = Some (take (unat n) r)"
    and "slice_lo (h @ r) (unat (of_nat hdrLength + n)) = Some (drop (unat n) r)"
    and "unat n < length r"
proof -
  have "hdrLength + unat n = unat (of_nat hdrLength + n)"
    by (rule salt_bounds(1) [OF le, symmetric])
  also have "\<dots> < unat (of_nat (length (h @ r)) :: uint32)"
    using lt by (simp only: word_less_nat_alt)
  also have "\<dots> \<le> length (h @ r)" by (rule unat_of_nat_length_le)
  finally show b: "unat n < length r" using h by simp
  show "slice_lo_hi (h @ r) hdrLength (unat (of_nat hdrLength + n)) = Some (take (unat n) r)"
    unfolding salt_bounds(1) [OF le] slice_lo_hi_def using b by (simp add: h [symmetric])
  show "slice_lo (h @ r) (unat (of_nat hdrLength + n)) = Some (drop (unat n) r)"
    unfolding salt_bounds(1) [OF le] slice_lo_def using b by (simp add: h [symmetric])
qed

lemma unpack_header:
  fixes r :: "byte list"
  shows "unpack d (v # p0 # p1 # p2 # p3 # i0 # i1 # i2 # i3 # n0 # n1 # n2 # n3 # r) =
    Some (if v \<noteq> v3 then (Some ErrVersion, d\<lparr>ver := v\<rparr>)
      else if u32 p0 p1 p2 p3 \<noteq> prfSHA256 then (Some ErrFunction, d\<lparr>ver := v, prf := u32 p0 p1 p2 p3\<rparr>)
      else if u32 i0 i1 i2 i3 > 100000
        then (Some ErrParameter, d\<lparr>ver := v, prf := u32 p0 p1 p2 p3, iter := u32 i0 i1 i2 i3\<rparr>)
      else if u32 n0 n1 n2 n3 > 64
        then (Some ErrParameter, d\<lparr>ver := v, prf := u32 p0 p1 p2 p3, iter := u32 i0 i1 i2 i3\<rparr>)
      else if of_nat hdrLength + u32 n0 n1 n2 n3 \<ge> (of_nat (hdrLength + length r) :: uint32)
        then (Some ErrCorrupt, d\<lparr>ver := v, prf := u32 p0 p1 p2 p3, iter := u32 i0 i1 i2 i3\<rparr>)
      else (None, d\<lparr>ver := v, prf := u32 p0 p1 p2 p3, iter := u32 i0 i1 i2 i3,
              salt := take (unat (u32 n0 n1 n2 n3)) r, hash := drop (unat (u32 n0 n1 n2 n3)) r\<rparr>))"
proof -
  define h where "h = [v, p0, p1, p2, p3, i0, i1, i2, i3, n0, n1, n2, n3]"
  define a where "a = h @ r"
  define n where "n = u32 n0 n1 n2 n3"
  have a: "v # p0 # p1 # p2 # p3 # i0 # i1 # i2 # i3 # n0 # n1 # n2 # n3 # r = a"
    by (simp add: a_def h_def)
  have h: "length h = hdrLength" by (simp add: hdrLength_def h_def)
  have len: "hdrLength + length r = length a" by (simp add: a_def h)
  have nl: "\<not> length a < hdrLength" using len by simp
  have rd: "at_index a 0 = Some v"
    "slice_lo a 1 \<bind> Uint32 = Some (u32 p0 p1 p2 p3)"
    "slice_lo a (1 + 4) \<bind> Uint32 = Some (u32 i0 i1 i2 i3)"
    "slice_lo a (1 + 4 + 4) \<bind> Uint32 = Some n"
    by (simp_all add: a_def h_def n_def at_index_def slice_lo_def Uint32_Cons4)
  note eqn = unpack_reads [OF nl rd, of d]
  show ?thesis
  proof (cases "n \<le> 64 \<and> of_nat hdrLength + n < (of_nat (length a) :: uint32)")
    case True
    then have le: "n \<le> 64"
      and lt: "of_nat hdrLength + n < (of_nat (length (h @ r)) :: uint32)"
      by (simp_all add: a_def)
    note sl = slices_after_header_lax(1,2) [OF h le lt, folded a_def]
    show ?thesis
      unfolding a len n_def [symmetric] eqn sl bind.bind_lunit using True by (auto simp add: not_le)
  next
    case False
    then show ?thesis
      unfolding a len n_def [symmetric] eqn by (auto simp add: not_le not_less)
  qed
qed

section \<open>Round trips of the binary codecs\<close>

lemma unat_of_nat_le: "unat (of_nat k :: uint32) \<le> k"
  by (simp add: unat_of_nat)

lemma salt_fits:
  fixes n :: uint32 and r :: "byte list"
  assumes le: "n \<le> 64"
    and eq: "of_nat hdrLength + n + of_nat sha256_Size = (of_nat (hdrLength + length r) :: uint32)"
  shows "unat n \<le> length r"
proof -
  have "hdrLength + unat n + sha256_Size = unat (of_nat hdrLength + n + of_nat sha256_Size)"
    by (rule salt_bounds(2) [OF le, symmetric])
  also have "\<dots> = unat (of_nat (hdrLength + length r) :: uint32)"
    by (simp only: eq)
  also have "\<dots> \<le> hdrLength + length r" by (rule unat_of_nat_le)
  finally show ?thesis by simp
qed

lemma salt_fits_lax:
  fixes n :: uint32 and r :: "byte list"
  assumes le: "n \<le> 64"
    and lt: "of_nat hdrLength + n < (of_nat (hdrLength + length r) :: uint32)"
  shows "unat n \<le> length r"
proof -
  have "hdrLength + unat n = unat (of_nat hdrLength + n)"
    by (rule salt_bounds(1) [OF le, symmetric])
  also have "\<dots> < unat (of_nat (hdrLength + length r) :: uint32)"
    using lt by (simp only: word_less_nat_alt)
  also have "\<dots> \<le> hdrLength + length r" by (rule unat_of_nat_le)
  finally show ?thesis by simp
qed

lemma small_length:
  fixes s :: "byte list"
  assumes "length s \<le> 64"
  shows "unat (of_nat (length s) :: uint32) = length s"
  using assms by (simp add: unat_of_nat)

lemma UnmarshalBinary_MarshalBinary:
  assumes "valid_PWHash r"
  shows "\<exists>b. MarshalBinary r = Some (b, None) \<and> UnmarshalBinary pd b = Some (None, r)"
proof -
  let ?s = "PWHash.salt r" and ?h = "PWHash.hash r"
  let ?n = "of_nat (length ?s) :: uint32"
  from assms have v: "PWHash.ver r = v3" "PWHash.prf r = prfSHA256"
    and i: "\<not> (PWHash.iter r < 1 \<or> PWHash.iter r > 100000)"
    and s: "1 \<le> length ?s" "length ?s \<le> 64" and h: "length ?h = 32"
    by (auto simp add: valid_PWHash_def v3_def prfSHA256_def)
  have un: "unat ?n = length ?s" by (rule small_length [OF s(2)])
  have n: "\<not> (?n < 1 \<or> ?n > 64)"
    using s by (auto simp add: word_less_nat_alt un)
  have l: "of_nat hdrLength + ?n + of_nat sha256_Size = (of_nat (hdrLength + length (?s @ ?h)) :: uint32)"
    by (simp add: h sha256_Size_def)
  have "UnmarshalBinary pd ([PWHash.ver r] @ be32 (PWHash.prf r) @ be32 (PWHash.iter r) @ be32 ?n @ ?s @ ?h)
     = Some (None, pd\<lparr>PWHash.ver := PWHash.ver r, PWHash.prf := PWHash.prf r, PWHash.iter := PWHash.iter r,
              PWHash.salt := ?s, PWHash.hash := ?h\<rparr>)"
    unfolding be32_def append_Cons append_Nil UnmarshalBinary_header u32_be32
    using v i n l by (simp add: un)
  then show ?thesis
    unfolding MarshalBinary_bytes by simp
qed

lemma MarshalBinary_UnmarshalBinary:
  assumes "UnmarshalBinary pd b = Some (None, d)"
  shows "MarshalBinary d = Some (b, None)"
proof -
  have "hdrLength \<le> length b"
    using assms by (auto simp add: UnmarshalBinary_def split: if_splits)
  then obtain v p0 p1 p2 p3 i0 i1 i2 i3 n0 n1 n2 n3 r
    where b: "b = v # p0 # p1 # p2 # p3 # i0 # i1 # i2 # i3 # n0 # n1 # n2 # n3 # r"
    by (rule header_split)
  let ?n = "u32 n0 n1 n2 n3"
  from assms have le: "?n \<le> 64"
    and eq: "of_nat hdrLength + ?n + of_nat sha256_Size = (of_nat (hdrLength + length r) :: uint32)"
    and d: "d = pd\<lparr>PWHash.ver := v, PWHash.prf := u32 p0 p1 p2 p3, PWHash.iter := u32 i0 i1 i2 i3,
              PWHash.salt := take (unat ?n) r, PWHash.hash := drop (unat ?n) r\<rparr>"
    unfolding b UnmarshalBinary_header by (auto simp add: not_less split: if_splits)
  have "unat ?n \<le> length r" by (rule salt_fits [OF le eq])
  then have "(of_nat (length (take (unat ?n) r)) :: uint32) = ?n"
    by (simp add: min_absorb2)
  then show ?thesis
    unfolding MarshalBinary_bytes d b by (simp add: be32_u32)
qed


lemma unpack_pack:
  assumes "valid_PWDataV3 r"
  shows "\<exists>b. pack r = Some b \<and> unpack d b = Some (None, r)"
proof -
  let ?s = "salt r" and ?h = "hash r"
  let ?n = "of_nat (length ?s) :: uint32"
  from assms have v: "ver r = v3" "prf r = prfSHA256"
    and i: "\<not> iter r > 100000"
    and s: "1 \<le> length ?s" "length ?s \<le> 64" and h: "length ?h = 32"
    by (auto simp add: valid_PWDataV3_def v3_def prfSHA256_def)
  have un: "unat ?n = length ?s" by (rule small_length [OF s(2)])
  have n: "\<not> ?n > 64"
    using s by (auto simp add: word_less_nat_alt un)
  have "unat (of_nat hdrLength + ?n) < unat (of_nat (hdrLength + length (?s @ ?h)) :: uint32)"
    using s h by (simp add: unat_of_nat hdrLength_def unat_word_ariths)
  then have l: "\<not> of_nat hdrLength + ?n \<ge> (of_nat (hdrLength + length (?s @ ?h)) :: uint32)"
    by (simp only: word_less_nat_alt not_le)
  have "unpack d ([ver r] @ be32 (prf r) @ be32 (iter r) @ be32 ?n @ ?s @ ?h)
     = Some (None, d\<lparr>ver := ver r, prf := prf r, iter := iter r, salt := ?s, hash := ?h\<rparr>)"
    unfolding be32_def append_Cons append_Nil unpack_header u32_be32
    using v i n l by (simp add: un)
  then show ?thesis
    unfolding pack_bytes by simp
qed

lemma pack_unpack:
  assumes "unpack pd b = Some (None, d)"
  shows "pack d = Some b"
proof -
  have "hdrLength \<le> length b"
    using assms by (auto simp add: unpack_def split: if_splits)
  then obtain v p0 p1 p2 p3 i0 i1 i2 i3 n0 n1 n2 n3 r
    where b: "b = v # p0 # p1 # p2 # p3 # i0 # i1 # i2 # i3 # n0 # n1 # n2 # n3 # r"
    by (rule header_split)
  let ?n = "u32 n0 n1 n2 n3"
  from assms have le: "?n \<le> 64"
    and lt: "of_nat hdrLength + ?n < (of_nat (hdrLength + length r) :: uint32)"
    and d: "d = pd\<lparr>ver := v, prf := u32 p0 p1 p2 p3, iter := u32 i0 i1 i2 i3,
              salt := take (unat ?n) r, hash := drop (unat ?n) r\<rparr>"
    unfolding b unpack_header by (auto simp add: not_less not_le split: if_splits)
  have "unat ?n \<le> length r" by (rule salt_fits_lax [OF le lt])
  then have "(of_nat (length (take (unat ?n) r)) :: uint32) = ?n"
    by (simp add: min_absorb2)
  then show ?thesis
    unfolding pack_bytes d b by (simp add: be32_u32)
qed

section \<open>The layout of an encoding\<close>

lemma nat_bytes:
  fixes x :: nat
  shows "x div 16777216 mod 256 * 16777216 + x div 65536 mod 256 * 65536 + x div 256 mod 256 * 256 + x mod 256
    = x mod 4294967296"
proof -
  have 1: "x mod 4294967296 = 256 * (x div 256 mod 16777216) + x mod 256"
    using mod_mult2_eq [of x 256 16777216] by simp
  have 2: "x div 256 mod 16777216 = 256 * (x div 65536 mod 65536) + x div 256 mod 256"
    using mod_mult2_eq [of "x div 256" 256 65536] by (simp add: div_mult2_eq [symmetric])
  have 3: "x div 65536 mod 65536 = 256 * (x div 16777216 mod 256) + x div 65536 mod 256"
    using mod_mult2_eq [of "x div 65536" 256 256] by (simp add: div_mult2_eq [symmetric])
  show ?thesis unfolding 1 2 3 by simp
qed

lemma unat_be32:
  fixes v :: uint32
  shows "unat (ucast (drop_bit 24 v) :: byte) * 16777216 + unat (ucast (drop_bit 16 v) :: byte) * 65536 +
     unat (ucast (drop_bit 8 v) :: byte) * 256 + unat (ucast v :: byte) = unat v"
proof -
  have lt: "unat v < 4294967296" using unsigned_less [of v, where 'a=nat] by simp
  have a: "unat (ucast (drop_bit k v) :: byte) = (unat v div 2 ^ k) mod 256" for k
    by (simp add: unsigned_ucast_eq unat_drop_bit_eq take_bit_eq_mod) (simp add: drop_bit_eq_div)
  have b: "unat (ucast v :: byte) = unat v mod 256"
    by (simp add: unsigned_ucast_eq take_bit_eq_mod)
  have "unat (ucast (drop_bit 24 v) :: byte) * 16777216 + unat (ucast (drop_bit 16 v) :: byte) * 65536 +
     unat (ucast (drop_bit 8 v) :: byte) * 256 + unat (ucast v :: byte) = unat v mod 4294967296"
    unfolding a b using nat_bytes [of "unat v"] by simp
  then show ?thesis using lt by simp
qed

lemma laid_out_bytes:
  assumes "length s \<le> 64" and "length h = 32"
  shows "laid_out ([v] @ be32 p @ be32 i @ be32 (of_nat (length s)) @ s @ h) v p i s h"
proof -
  let ?out = "[v] @ be32 p @ be32 i @ be32 (of_nat (length s)) @ s @ h"
  have 1: "be_at ?out 1 = unat p"
    unfolding be_at_def be32_def by (simp add: unat_be32)
  have 5: "be_at ?out 5 = unat i"
    unfolding be_at_def be32_def by (simp add: unat_be32)
  have "be_at ?out 9 = unat (of_nat (length s) :: uint32)"
    unfolding be_at_def be32_def by (simp add: unat_be32)
  then have 9: "be_at ?out 9 = length s"
    by (simp only: small_length [OF assms(1)])
  have d: "drop 13 ?out = s @ h" by (simp add: be32_def)
  have t: "take (length s) (drop 13 ?out) = s" unfolding d by simp
  have "drop (13 + length s) ?out = drop (length s) (drop 13 ?out)"
    by (simp only: drop_drop add.commute)
  then have h: "drop (13 + length s) ?out = h" unfolding d by simp
  have l: "length ?out = 13 + length s + 32" by (simp add: assms(2))
  have z: "?out ! 0 = v" by simp
  show ?thesis
    unfolding laid_out_def using 1 5 9 t h l z assms(2) by blast
qed

section \<open>Constant-time comparison\<close>

lemma ConstantTimeByteEq_zero: "ConstantTimeByteEq v 0 = 1 \<longleftrightarrow> v = 0"
proof (cases "v = 0")
  case True
  then show ?thesis by (simp add: ConstantTimeByteEq_def)
next
  case False
  have lt: "unat v < 256" using unsigned_less [of v, where 'a=nat] by simp
  have uc: "unat (ucast v :: uint32) = unat v"
    using lt by (simp add: unsigned_ucast_eq take_bit_nat_eq_self)
  have "0 < unat v" using False by (simp add: unat_gt_0)
  then have "(1 :: uint32) \<le> ucast v"
    by (simp add: word_le_nat_alt uc)
  then have "unat ((ucast v :: uint32) - 1) = unat v - 1"
    by (simp add: unat_sub uc)
  then have "drop_bit 31 (unat ((ucast v :: uint32) - 1)) = 0"
    using lt by (simp add: drop_bit_eq_div)
  then have "unat (drop_bit 31 ((ucast v :: uint32) - 1)) = 0"
    by (simp only: unat_drop_bit_eq)
  then have "drop_bit 31 ((ucast v :: uint32) - 1) = 0" by (simp add: unat_eq_0)
  then show ?thesis using False by (simp add: ConstantTimeByteEq_def)
qed

lemma xor_zero_iff:
  fixes a b :: byte
  shows "a XOR b = 0 \<longleftrightarrow> a = b"
proof
  assume h: "a XOR b = 0"
  have "a = (a XOR b) XOR b" by (simp add: xor.assoc)
  then show "a = b" using h by simp
qed simp

lemma fold_or_zero:
  fixes v :: byte
  shows "fold (\<lambda>i v. v OR (x ! i XOR y ! i)) is v = 0 \<longleftrightarrow> v = 0 \<and> (\<forall>i \<in> set is. x ! i = y ! i)"
  by (induction "is" arbitrary: v) (auto simp add: or_eq_0_iff xor_zero_iff)

lemma ConstantTimeCompare_eq: "ConstantTimeCompare x y = 1 \<longleftrightarrow> x = y"
proof (cases "length x = length y")
  case True
  have "ConstantTimeCompare x y = 1 \<longleftrightarrow> (\<forall>i \<in> set [0..<length x]. x ! i = y ! i)"
    unfolding ConstantTimeCompare_def using True
    by (simp only: ConstantTimeByteEq_zero fold_or_zero not_True_eq_False if_False simp_thms)
  also have "\<dots> \<longleftrightarrow> x = y"
    unfolding list_eq_iff_nth_eq [of x y] using True by auto
  finally show ?thesis .
next
  case False
  then show ?thesis by (auto simp add: ConstantTimeCompare_def)
qed

lemma ConstantTimeCompare_refl: "ConstantTimeCompare x x = 1"
  by (simp add: ConstantTimeCompare_eq)

section \<open>The checks of UnmarshalBinary\<close>

text \<open>
  Neither decoder panics. \<open>UnmarshalBinary\<close> leaves its receiver as it was on every
  error, reports \<open>ErrParameter\<close> exactly for an iteration count or a salt length out
  of range, and, for an input shorter than \<open>2 ^ 32\<close> bytes, reports \<open>ErrCorrupt\<close> after
  the header checks exactly when the length is not that of header, salt and 32 bytes.
\<close>

lemma UnmarshalBinary_total: "\<exists>e pd'. UnmarshalBinary pd a = Some (e, pd')"
proof (cases "length a < hdrLength")
  case True
  then show ?thesis by (simp add: UnmarshalBinary_def)
next
  case False
  then have "hdrLength \<le> length a" by simp
  then obtain v p0 p1 p2 p3 i0 i1 i2 i3 n0 n1 n2 n3 r
    where a: "a = v # p0 # p1 # p2 # p3 # i0 # i1 # i2 # i3 # n0 # n1 # n2 # n3 # r"
    by (rule header_split)
  show ?thesis
    unfolding a UnmarshalBinary_header option.inject by (rule surj_pair)
qed

lemma unpack_total: "\<exists>e d'. unpack d a = Some (e, d')"
proof (cases "length a < hdrLength")
  case True
  then show ?thesis by (simp add: unpack_def)
next
  case False
  then have "hdrLength \<le> length a" by simp
  then obtain v p0 p1 p2 p3 i0 i1 i2 i3 n0 n1 n2 n3 r
    where a: "a = v # p0 # p1 # p2 # p3 # i0 # i1 # i2 # i3 # n0 # n1 # n2 # n3 # r"
    by (rule header_split)
  show ?thesis
    unfolding a unpack_header option.inject by (rule surj_pair)
qed

lemma UnmarshalBinary_unchanged_on_error:
  assumes "UnmarshalBinary pd a = Some (Some e, pd')"
  shows "pd' = pd"
proof (cases "length a < hdrLength")
  case True
  then show ?thesis using assms by (simp add: UnmarshalBinary_def)
next
  case False
  then have "hdrLength \<le> length a" by simp
  then obtain v p0 p1 p2 p3 i0 i1 i2 i3 n0 n1 n2 n3 r
    where "a = v # p0 # p1 # p2 # p3 # i0 # i1 # i2 # i3 # n0 # n1 # n2 # n3 # r"
    by (rule header_split)
  then show ?thesis
    using assms by (simp only: UnmarshalBinary_header) (auto split: if_splits)
qed

lemma UnmarshalBinary_Parameter_iff:
  fixes r :: "byte list"
  assumes "v = v3" and "u32 p0 p1 p2 p3 = prfSHA256"
  shows "UnmarshalBinary pd (v # p0 # p1 # p2 # p3 # i0 # i1 # i2 # i3 # n0 # n1 # n2 # n3 # r)
           = Some (Some ErrParameter, pd) \<longleftrightarrow>
         u32 i0 i1 i2 i3 = 0 \<or> u32 i0 i1 i2 i3 > 100000 \<or> u32 n0 n1 n2 n3 = 0 \<or> u32 n0 n1 n2 n3 > 64"
  unfolding UnmarshalBinary_header using assms by (auto simp add: word_less_1)

lemma UnmarshalBinary_length_check:
  fixes r :: "byte list"
  assumes "v = v3" and "u32 p0 p1 p2 p3 = prfSHA256"
    and "1 \<le> u32 i0 i1 i2 i3" "u32 i0 i1 i2 i3 \<le> 100000"
    and "1 \<le> u32 n0 n1 n2 n3" "u32 n0 n1 n2 n3 \<le> 64"
    and len: "hdrLength + length r < 2 ^ 32"
  shows "UnmarshalBinary pd (v # p0 # p1 # p2 # p3 # i0 # i1 # i2 # i3 # n0 # n1 # n2 # n3 # r)
           = Some (Some ErrCorrupt, pd) \<longleftrightarrow>
         hdrLength + length r \<noteq> hdrLength + unat (u32 n0 n1 n2 n3) + sha256_Size"
proof -
  let ?n = "u32 n0 n1 n2 n3"
  have "unat (of_nat k :: uint32) = k" if "k < 2 ^ 32" for k
    using that by (simp add: unat_of_nat)
  from this [OF len] have "of_nat hdrLength + ?n + of_nat sha256_Size = (of_nat (hdrLength + length r) :: uint32)
     \<longleftrightarrow> hdrLength + unat ?n + sha256_Size = hdrLength + length r"
    using salt_bounds(2) [OF assms(6)] by (simp only: word_unat_eq_iff)
  then show ?thesis
    unfolding UnmarshalBinary_header using assms(1-6) by (auto simp add: not_less)
qed

section \<open>The examples\<close>

lemma u32_small: "u32 0 0 0 0 = 0" "u32 0 0 0 1 = 1"
  by (simp_all add: u32_def)

lemma fromBase64_total: "fromBase64 D s \<noteq> None"
proof (cases "D s")
  case (Inl e)
  then show ?thesis by (simp add: fromBase64_def)
next
  case (Inr out)
  obtain e d' where "unpack zero_PWDataV3 out = Some (e, d')"
    using unpack_total by blast
  then show ?thesis using Inr by (cases e) (simp_all add: fromBase64_def)
qed

lemma example_u32: "u32 0 0 0 1 = 1" "u32 0 0 39 16 = 10000" "u32 0 0 0 16 = 16"
  by (simp_all add: u32_def)

lemma example_unpack: "unpack zero_PWDataV3 example_bytes = Some (None, example_PWDataV3)"
  by (simp add: example_bytes_def example_PWDataV3_def unpack_header example_u32 v3_def prfSHA256_def
      hdrLength_def zero_PWDataV3_def)

lemma example_fromBase64:
  "fromBase64 example_DecodeString example_b64 = Some (Inr example_PWDataV3)"
  "fromBase64 example_DecodeString (example_b64 @ ''????'')
     = Some (Inl (Errorf ''pw data: illegal base64 data at input byte 84''))"
  "fromBase64 example_DecodeString ''?'' = Some (Inl (Errorf ''pw data: illegal base64 data at input byte 0''))"
    by (simp_all add: fromBase64_def example_DecodeString_def example_unpack) (simp_all add: example_b64_def)

lemma example_UnmarshalBinary: "UnmarshalBinary zero_PWHash example_bytes = Some (None, example_PWHash)"
  by (simp add: example_bytes_def example_PWHash_def UnmarshalBinary_header example_u32 v3_def prfSHA256_def
      hdrLength_def sha256_Size_def zero_PWHash_def)

lemma example_Decode_values:
  "example_Decode (map of_char (example_b64 @ ''??'')) = Inl ''illegal base64 data at input byte 84''"
  "example_Decode (map of_char example_b64) = Inr example_bytes"
  by (simp_all add: example_Decode_def)

lemma example_New:
  "New (Inr (\<lambda>i. 0)) example_Key pw n
     = Inr \<lparr>PWHash.ver = 1, prf = 1, iter = ucast n, salt = replicate 16 0, hash = replicate 32 0\<rparr>"
  "NewFromPassword (Inr (\<lambda>i. 0)) example_Key pw n
     = Inr \<lparr>ver = 1, prf = 1, iter = ucast n, salt = replicate 16 0, hash = replicate 32 0\<rparr>"
  by (simp_all add: New_def NewFromPassword_def rand_Read_def hashPW_def example_Key_def
      DefaultSaltLen_def sha256_Size_def v3_def prfSHA256_def map_replicate_const)

section \<open>The claims\<close>

text \<open>
  C1. Round trip of the binary codec, for both variants. Encoding a valid record
  (version 1, prf 1, iterations in [1,100000], salt of 1 to 64 bytes, subkey of 32
  bytes) and decoding the bytes into any receiver succeeds and gives the record back;
  and whenever decoding a byte sequence succeeds, encoding the decoded record gives
  the same bytes.
\<close>

theorem codec_round_trip:
  "(valid_PWHash r \<longrightarrow>
      (\<exists>b. MarshalBinary r = Some (b, None) \<and> UnmarshalBinary pd b = Some (None, r))) \<and>
   (UnmarshalBinary pd a = Some (None, r') \<longrightarrow> MarshalBinary r' = Some (a, None)) \<and>
   (valid_PWDataV3 d \<longrightarrow>
      (\<exists>b. pack d = Some b \<and> unpack pd' b = Some (None, d))) \<and>
   (unpack pd' a' = Some (None, d') \<longrightarrow> pack d' = Some a')"
  using UnmarshalBinary_MarshalBinary [of r pd] MarshalBinary_UnmarshalBinary [of pd a r']
    unpack_pack [of d pd'] pack_unpack [of pd' a' d']
  by blast

text \<open>The round trip at the record with 10000 iterations, salt \<open>EE\<close> and subkey 1, ..., 32.\<close>

theorem codec_round_trip_witness:
  "valid_PWHash \<lparr>PWHash.ver = 1, prf = 1, iter = 10000, salt = [0xEE],
       hash = [1,2,3,4,5,6,7,8,9,10,11,12,13,14,15,16,17,18,19,20,21,22,23,24,25,26,27,28,29,30,31,32]\<rparr> \<and>
   UnmarshalBinary \<lparr>PWHash.ver = 0, prf = 0, iter = 0, salt = [], hash = []\<rparr>
       [1, 0,0,0,1, 0,0,0x27,0x10, 0,0,0,1, 0xEE,
        1,2,3,4,5,6,7,8,9,10,11,12,13,14,15,16,17,18,19,20,21,22,23,24,25,26,27,28,29,30,31,32]
     = Some (None, \<lparr>PWHash.ver = 1, prf = 1, iter = 10000, salt = [0xEE],
       hash = [1,2,3,4,5,6,7,8,9,10,11,12,13,14,15,16,17,18,19,20,21,22,23,24,25,26,27,28,29,30,31,32]\<rparr>) \<and>
   MarshalBinary \<lparr>PWHash.ver = 1, prf = 1, iter = 10000, salt = [0xEE],
       hash = [1,2,3,4,5,6,7,8,9,10,11,12,13,14,15,16,17,18,19,20,21,22,23,24,25,26,27,28,29,30,31,32]\<rparr>
     = Some ([1, 0,0,0,1, 0,0,0x27,0x10, 0,0,0,1, 0xEE,
        1,2,3,4,5,6,7,8,9,10,11,12,13,14,15,16,17,18,19,20,21,22,23,24,25,26,27,28,29,30,31,32], None) \<and>
   valid_PWDataV3 \<lparr>ver = 1, prf = 1, iter = 10000, salt = [0xEE],
       hash = [1,2,3,4,5,6,7,8,9,10,11,12,13,14,15,16,17,18,19,20,21,22,23,24,25,26,27,28,29,30,31,32]\<rparr> \<and>
   unpack zero_PWDataV3
       [1, 0,0,0,1, 0,0,0x27,0x10, 0,0,0,1, 0xEE,
        1,2,3,4,5,6,7,8,9,10,11,12,13,14,15,16,17,18,19,20,21,22,23,24,25,26,27,28,29,30,31,32]
     = Some (None, \<lparr>ver = 1, prf = 1, iter = 10000, salt = [0xEE],
       hash = [1,2,3,4,5,6,7,8,9,10,11,12,13,14,15,16,17,18,19,20,21,22,23,24,25,26,27,28,29,30,31,32]\<rparr>) \<and>
   pack \<lparr>ver = 1, prf = 1, iter = 10000, salt = [0xEE],
       hash = [1,2,3,4,5,6,7,8,9,10,11,12,13,14,15,16,17,18,19,20,21,22,23,24,25,26,27,28,29,30,31,32]\<rparr>
     = Some [1, 0,0,0,1, 0,0,0x27,0x10, 0,0,0,1, 0xEE,
        1,2,3,4,5,6,7,8,9,10,11,12,13,14,15,16,17,18,19,20,21,22,23,24,25,26,27,28,29,30,31,32]"
  (is "?v1 \<and> ?u1 \<and> ?m1 \<and> ?v2 \<and> ?u2 \<and> ?m2")
proof -
  have u32s: "u32 0 0 0 1 = 1" "u32 0 0 0x27 0x10 = 10000"
    by (simp_all add: u32_def)
  have v1: ?v1 by (simp add: valid_PWHash_def)
  have v2: ?v2 by (simp add: valid_PWDataV3_def)
  have u1: ?u1
    by (simp add: UnmarshalBinary_header u32s v3_def prfSHA256_def hdrLength_def sha256_Size_def)
  have u2: ?u2
    by (simp add: unpack_header u32s v3_def prfSHA256_def hdrLength_def zero_PWDataV3_def)
  have m1: ?m1
    using codec_round_trip [THEN conjunct2, THEN conjunct1, rule_format, OF u1] .
  have m2: ?m2
    using codec_round_trip [THEN conjunct2, THEN conjunct2, THEN conjunct2, rule_format, OF u2] .
  show ?thesis using v1 u1 m1 v2 u2 m2 by blast
qed

text \<open>
  C2. The claim: once the header checks have passed, decoding fails with the Corrupt
  error unless the input has exactly 13 + saltLength + 32 bytes. \<open>unpack\<close> compares
  with \<open>hdrLength+saltlen >= uint32(len(a))\<close> only: the 15 bytes below, a header
  announcing one byte of salt, that byte and a single further byte, are accepted with
  a subkey of one byte, where \<open>UnmarshalBinary\<close> reports \<open>ErrCorrupt\<close>.
\<close>

theorem unpack_accepts_short_subkey:
  "unpack zero_PWDataV3 [1, 0,0,0,1, 0,0,0,1, 0,0,0,1, 0xEE, 0xAA]
     = Some (None, \<lparr>ver = 1, prf = 1, iter = 1, salt = [0xEE], hash = [0xAA]\<rparr>) \<and>
   length [1, 0,0,0,1, 0,0,0,1, 0,0,0,1, 0xEE, 0xAA :: byte] \<noteq> 13 + 1 + 32 \<and>
   UnmarshalBinary \<lparr>PWHash.ver = 0, prf = 0, iter = 0, salt = [], hash = []\<rparr>
       [1, 0,0,0,1, 0,0,0,1, 0,0,0,1, 0xEE, 0xAA]
     = Some (Some ErrCorrupt, \<lparr>PWHash.ver = 0, prf = 0, iter = 0, salt = [], hash = []\<rparr>)"
  by (simp add: unpack_header UnmarshalBinary_header u32_small v3_def prfSHA256_def hdrLength_def
      sha256_Size_def zero_PWDataV3_def)

text \<open>
  C3. The claim: decoding reports the Parameter error exactly when the iteration
  count is 0 or above 100000, or the salt length is 0 or above 64. \<open>unpack\<close> has
  the upper bounds only: an encoding with iteration count 0, and one with salt length
  0, are accepted, where \<open>UnmarshalBinary\<close> reports \<open>ErrParameter\<close> for both.
\<close>

theorem unpack_accepts_zero_parameters:
  "unpack zero_PWDataV3 [1, 0,0,0,1, 0,0,0,0, 0,0,0,1, 0xEE,
       1,2,3,4,5,6,7,8,9,10,11,12,13,14,15,16,17,18,19,20,21,22,23,24,25,26,27,28,29,30,31,32]
     = Some (None, \<lparr>ver = 1, prf = 1, iter = 0, salt = [0xEE],
         hash = [1,2,3,4,5,6,7,8,9,10,11,12,13,14,15,16,17,18,19,20,21,22,23,24,25,26,27,28,29,30,31,32]\<rparr>) \<and>
   unpack zero_PWDataV3 [1, 0,0,0,1, 0,0,0,1, 0,0,0,0,
       1,2,3,4,5,6,7,8,9,10,11,12,13,14,15,16,17,18,19,20,21,22,23,24,25,26,27,28,29,30,31,32]
     = Some (None, \<lparr>ver = 1, prf = 1, iter = 1, salt = [],
         hash = [1,2,3,4,5,6,7,8,9,10,11,12,13,14,15,16,17,18,19,20,21,22,23,24,25,26,27,28,29,30,31,32]\<rparr>) \<and>
   UnmarshalBinary \<lparr>PWHash.ver = 0, prf = 0, iter = 0, salt = [], hash = []\<rparr>
       [1, 0,0,0,1, 0,0,0,0, 0,0,0,1, 0xEE,
        1,2,3,4,5,6,7,8,9,10,11,12,13,14,15,16,17,18,19,20,21,22,23,24,25,26,27,28,29,30,31,32]
     = Some (Some ErrParameter, \<lparr>PWHash.ver = 0, prf = 0, iter = 0, salt = [], hash = []\<rparr>) \<and>
   UnmarshalBinary \<lparr>PWHash.ver = 0, prf = 0, iter = 0, salt = [], hash = []\<rparr>
       [1, 0,0,0,1, 0,0,0,1, 0,0,0,0,
        1,2,3,4,5,6,7,8,9,10,11,12,13,14,15,16,17,18,19,20,21,22,23,24,25,26,27,28,29,30,31,32]
     = Some (Some ErrParameter, \<lparr>PWHash.ver = 0, prf = 0, iter = 0, salt = [], hash = []\<rparr>)"
  by (simp add: unpack_header UnmarshalBinary_header u32_small v3_def prfSHA256_def hdrLength_def
      sha256_Size_def zero_PWDataV3_def)

text \<open>
  C4. The claim: when decoding into an existing record returns an error, the five
  fields of the record are as before the call. \<open>unpack\<close> stores each field before
  checking it: on a version byte 2 the zero record comes back with version 2 and
  \<open>ErrVersion\<close>, and a record with 10000 iterations comes back with 0 iterations
  and \<open>ErrParameter\<close>; \<open>UnmarshalBinary\<close> leaves its receiver as it was.
\<close>

theorem unpack_changes_receiver_on_error:
  "unpack zero_PWDataV3 [2, 0,0,0,0, 0,0,0,0, 0,0,0,0]
     = Some (Some ErrVersion, \<lparr>ver = 2, prf = 0, iter = 0, salt = [], hash = []\<rparr>) \<and>
   ver zero_PWDataV3 = 0 \<and>
   unpack \<lparr>ver = 1, prf = 1, iter = 10000, salt = [0xEE], hash = [0xAA]\<rparr>
       [1, 0,0,0,1, 0,0,0,0, 0,0,0,0x41]
     = Some (Some ErrParameter, \<lparr>ver = 1, prf = 1, iter = 0, salt = [0xEE], hash = [0xAA]\<rparr>) \<and>
   UnmarshalBinary \<lparr>PWHash.ver = 0, prf = 0, iter = 0, salt = [], hash = []\<rparr>
       [2, 0,0,0,0, 0,0,0,0, 0,0,0,0]
     = Some (Some ErrVersion, \<lparr>PWHash.ver = 0, prf = 0, iter = 0, salt = [], hash = []\<rparr>)"
proof -
  have "u32 0 0 0 0x41 = 65" by (simp add: u32_def)
  then show ?thesis
    by (simp add: unpack_header UnmarshalBinary_header u32_small v3_def prfSHA256_def hdrLength_def
        sha256_Size_def zero_PWDataV3_def)
qed

text \<open>
  C5. For every record and every candidate password, verification is true if and
  only if the key derived from the password with the record's salt and iteration
  count equals the stored subkey, byte for byte; the derivation asks for 32 bytes.
  This holds for \<open>Verify\<close> of \<open>PWHash\<close> and \<open>VerifyPassword\<close> of \<open>PWDataV3\<close>, for
  every key derivation function.
\<close>

theorem verify_iff_derived_key_equal:
  "(Verify Key r p \<longleftrightarrow> hashPW Key p (PWHash.salt r) (ucast (PWHash.iter r)) = PWHash.hash r) \<and>
   (VerifyPassword Key d p \<longleftrightarrow> hashPW Key p (salt d) (ucast (iter d)) = hash d) \<and>
   hashPW Key p s i = Key (map of_char p) s i 32"
  unfolding Verify_def VerifyPassword_def Let_def ConstantTimeCompare_eq hashPW_def sha256_Size_def
  by auto

text \<open>
  C6, as amended. Decoding the text never panics. If it fails with an error and the
  random source supplies the salt, \<open>VerifyHash\<close> derives a key from the empty
  password with the default iteration count and the fresh salt, compares that key
  with itself, and returns false together with the decoding error. If decoding
  succeeds with a record, \<open>VerifyHash\<close> returns the result of \<open>VerifyPassword\<close> on
  that record and no error.
\<close>

theorem VerifyHash_results:
  "fromBase64 D t \<noteq> None \<and>
   (fromBase64 D t = Some (Inl e) \<and> rnd = Inr f \<longrightarrow>
      VerifyHash D rnd Key t p =
        Some (ConstantTimeCompare (hashPW Key [] (map f [0..<DefaultSaltLen]) DefaultIter)
                (hashPW Key [] (map f [0..<DefaultSaltLen]) DefaultIter) \<noteq> 1, Some e) \<and>
      VerifyHash D rnd Key t p = Some (False, Some e)) \<and>
   (fromBase64 D t = Some (Inr r) \<longrightarrow>
      VerifyHash D rnd Key t p = Some (VerifyPassword Key r p, None))"
  by (simp add: fromBase64_total VerifyHash_def Must_def NewFromPassword_def rand_Read_def
      VerifyPassword_def Let_def ConstantTimeCompare_refl)

text \<open>
  The two branches at the first stored hash of the tests and at that hash followed
  by four question marks.
\<close>

theorem VerifyHash_results_witness:
  "fromBase64 example_DecodeString (example_b64 @ ''????'')
      = Some (Inl (Errorf ''pw data: illegal base64 data at input byte 84'')) \<and>
   VerifyHash example_DecodeString (Inr (\<lambda>i. 0)) example_Key (example_b64 @ ''????'') ''In2Egypt!''
      = Some (False, Some (Errorf ''pw data: illegal base64 data at input byte 84'')) \<and>
   fromBase64 example_DecodeString example_b64 = Some (Inr example_PWDataV3) \<and>
   VerifyHash example_DecodeString (Inr (\<lambda>i. 0)) example_Key example_b64 ''In2Egypt!''
      = Some (VerifyPassword example_Key example_PWDataV3 ''In2Egypt!'', None)"
proof -
  note f = example_fromBase64
  from VerifyHash_results [of example_DecodeString "example_b64 @ ''????''"
      "Errorf ''pw data: illegal base64 data at input byte 84''" "Inr (\<lambda>i. 0)" "\<lambda>i. 0" example_Key
      "''In2Egypt!''"] f(2)
  have a: "VerifyHash example_DecodeString (Inr (\<lambda>i. 0)) example_Key (example_b64 @ ''????'') ''In2Egypt!''
      = Some (False, Some (Errorf ''pw data: illegal base64 data at input byte 84''))"
    by blast
  from VerifyHash_results [of example_DecodeString example_b64 _ "Inr (\<lambda>i. 0)" _ example_Key "''In2Egypt!''"
      example_PWDataV3] f(1)
  have b: "VerifyHash example_DecodeString (Inr (\<lambda>i. 0)) example_Key example_b64 ''In2Egypt!''
      = Some (VerifyPassword example_Key example_PWDataV3 ''In2Egypt!'', None)"
    by blast
  show ?thesis using a b f(1,2) by blast
qed

text \<open>
  C6 as stated fails when the random source fails: on the malformed text the call
  panics in \<open>Must\<close> and returns nothing.
\<close>

theorem VerifyHash_panic_counterexample:
  "fromBase64 example_DecodeString (example_b64 @ ''????'')
      = Some (Inl (Errorf ''pw data: illegal base64 data at input byte 84'')) \<and>
   VerifyHash example_DecodeString (Inl ''unexpected EOF'') example_Key (example_b64 @ ''????'') ''In2Egypt!''
      \<noteq> Some (False, Some (Errorf ''pw data: illegal base64 data at input byte 84''))"
  by (simp add: example_fromBase64 VerifyHash_def Must_def NewFromPassword_def rand_Read_def)

text \<open>
  C7. Decoding a text decodes the base64 first. If that fails, the result is an error
  made of a prefix and the diagnostic of the base64 decoder, of kind Corrupt in the
  specification's classes, and the receiver is as before: the binary decoder has no
  part in the result. If it succeeds, the result is that of the binary decoder on
  the decoded bytes: \<open>UnmarshalBinary\<close> on the receiver for \<open>UnmarshalText\<close>,
  \<open>unpack\<close> on a fresh record for \<open>fromBase64\<close>.
\<close>

theorem text_decoding:
  "(Decode t = Inl diag \<longrightarrow>
      UnmarshalText Decode pd t = Some (Some (Errorf (''password encoding: '' @ diag)), pd) \<and>
      spec_kind (Errorf (''password encoding: '' @ diag)) = Corrupt) \<and>
   (Decode t = Inr out \<longrightarrow> UnmarshalText Decode pd t = UnmarshalBinary pd out) \<and>
   (DecodeString s = Inl diag \<longrightarrow>
      fromBase64 DecodeString s = Some (Inl (Errorf (''pw data: '' @ diag))) \<and>
      spec_kind (Errorf (''pw data: '' @ diag)) = Corrupt) \<and>
   (DecodeString s = Inr out \<longrightarrow>
      (\<forall>e d. unpack zero_PWDataV3 out = Some (Some e, d) \<longrightarrow> fromBase64 DecodeString s = Some (Inl e)) \<and>
      (\<forall>d. unpack zero_PWDataV3 out = Some (None, d) \<longrightarrow> fromBase64 DecodeString s = Some (Inr d)))"
  by (simp add: UnmarshalText_def fromBase64_def)

text \<open>
  Text decoding at the first stored hash of the tests and at that hash followed by
  question marks.
\<close>

theorem text_decoding_witness:
  "example_Decode (map of_char (example_b64 @ ''??'')) = Inl ''illegal base64 data at input byte 84'' \<and>
   UnmarshalText example_Decode zero_PWHash (map of_char (example_b64 @ ''??''))
      = Some (Some (Errorf ''password encoding: illegal base64 data at input byte 84''), zero_PWHash) \<and>
   example_Decode (map of_char example_b64) = Inr example_bytes \<and>
   UnmarshalText example_Decode zero_PWHash (map of_char example_b64) = Some (None, example_PWHash) \<and>
   example_DecodeString (example_b64 @ ''????'') = Inl ''illegal base64 data at input byte 84'' \<and>
   fromBase64 example_DecodeString (example_b64 @ ''????'')
      = Some (Inl (Errorf ''pw data: illegal base64 data at input byte 84'')) \<and>
   example_DecodeString example_b64 = Inr example_bytes \<and>
   unpack zero_PWDataV3 example_bytes = Some (None, example_PWDataV3) \<and>
   fromBase64 example_DecodeString example_b64 = Some (Inr example_PWDataV3)"
proof -
  note d = example_Decode_values
  have s: "example_DecodeString (example_b64 @ ''????'') = Inl ''illegal base64 data at input byte 84''"
    "example_DecodeString example_b64 = Inr example_bytes"
    by (simp_all add: example_DecodeString_def)
  note t1 = text_decoding [of example_Decode "map of_char (example_b64 @ ''??'')"
      "''illegal base64 data at input byte 84''" zero_PWHash _ example_DecodeString
      "example_b64 @ ''????''"]
  note t2 = text_decoding [of example_Decode "map of_char example_b64" _ zero_PWHash example_bytes
      example_DecodeString example_b64]
  have a: "UnmarshalText example_Decode zero_PWHash (map of_char (example_b64 @ ''??''))
      = Some (Some (Errorf ''password encoding: illegal base64 data at input byte 84''), zero_PWHash)"
    using t1 d(1) by simp
  have b: "UnmarshalText example_Decode zero_PWHash (map of_char example_b64) = Some (None, example_PWHash)"
    using t2 d(2) example_UnmarshalBinary by simp
  have c: "fromBase64 example_DecodeString (example_b64 @ ''????'')
      = Some (Inl (Errorf ''pw data: illegal base64 data at input byte 84''))"
    using t1 s(1) by simp
  have e: "fromBase64 example_DecodeString example_b64 = Some (Inr example_PWDataV3)"
    using t2 s(2) example_unpack by blast
  show ?thesis using d s a b c e example_unpack by blast
qed

text \<open>
  C8. Encoding a valid record never fails (no panic, a nil error) and gives exactly
  13 + len(salt) + 32 bytes: the version at offset 0, then prf, iterations and salt
  length as four bytes each, big-endian, at offsets 1, 5 and 9, the salt at offset 13
  and the 32 bytes of the subkey right after the salt.
\<close>

theorem encode_layout:
  "(valid_PWHash r \<longrightarrow>
      (\<exists>out. MarshalBinary r = Some (out, None) \<and>
         laid_out out (PWHash.ver r) (PWHash.prf r) (PWHash.iter r) (PWHash.salt r) (PWHash.hash r))) \<and>
   (valid_PWDataV3 d \<longrightarrow>
      (\<exists>out. pack d = Some out \<and> laid_out out (ver d) (prf d) (iter d) (salt d) (hash d)))"
  unfolding MarshalBinary_bytes pack_bytes valid_PWHash_def valid_PWDataV3_def
  using laid_out_bytes [of "PWHash.salt r" "PWHash.hash r" "PWHash.ver r" "PWHash.prf r" "PWHash.iter r"]
    laid_out_bytes [of "salt d" "hash d" "ver d" "prf d" "iter d"]
  by blast

text \<open>The layout at the record with 10000 iterations and the two-byte salt \<open>EE 24\<close>.\<close>

theorem encode_layout_witness:
  "valid_PWHash \<lparr>PWHash.ver = 1, prf = 1, iter = 10000, salt = [0xEE, 0x24],
       hash = [1,2,3,4,5,6,7,8,9,10,11,12,13,14,15,16,17,18,19,20,21,22,23,24,25,26,27,28,29,30,31,32]\<rparr> \<and>
   laid_out [1, 0,0,0,1, 0,0,0x27,0x10, 0,0,0,2, 0xEE, 0x24,
        1,2,3,4,5,6,7,8,9,10,11,12,13,14,15,16,17,18,19,20,21,22,23,24,25,26,27,28,29,30,31,32]
      1 1 10000 [0xEE, 0x24]
      [1,2,3,4,5,6,7,8,9,10,11,12,13,14,15,16,17,18,19,20,21,22,23,24,25,26,27,28,29,30,31,32] \<and>
   valid_PWDataV3 \<lparr>ver = 1, prf = 1, iter = 10000, salt = [0xEE, 0x24],
       hash = [1,2,3,4,5,6,7,8,9,10,11,12,13,14,15,16,17,18,19,20,21,22,23,24,25,26,27,28,29,30,31,32]\<rparr> \<and>
   pack \<lparr>ver = 1, prf = 1, iter = 10000, salt = [0xEE, 0x24],
       hash = [1,2,3,4,5,6,7,8,9,10,11,12,13,14,15,16,17,18,19,20,21,22,23,24,25,26,27,28,29,30,31,32]\<rparr>
     = Some [1, 0,0,0,1, 0,0,0x27,0x10, 0,0,0,2, 0xEE, 0x24,
        1,2,3,4,5,6,7,8,9,10,11,12,13,14,15,16,17,18,19,20,21,22,23,24,25,26,27,28,29,30,31,32]"
  (is "valid_PWHash ?r \<and> ?l \<and> valid_PWDataV3 ?d \<and> ?p")
proof -
  have v1: "valid_PWHash ?r" by (simp add: valid_PWHash_def)
  have v2: "valid_PWDataV3 ?d" by (simp add: valid_PWDataV3_def)
  have m: "MarshalBinary ?r = Some ([1, 0,0,0,1, 0,0,0x27,0x10, 0,0,0,2, 0xEE, 0x24,
        1,2,3,4,5,6,7,8,9,10,11,12,13,14,15,16,17,18,19,20,21,22,23,24,25,26,27,28,29,30,31,32], None)"
    by (simp add: MarshalBinary_bytes be32_def)
  have p: ?p by (simp add: pack_bytes be32_def)
  from encode_layout [of ?r ?d] v1 m have l: ?l by simp
  show ?thesis using v1 l v2 p by blast
qed

text \<open>
  C9, as amended. With a working random source the constructors succeed for every
  iteration count and return a record with version 1 and prf 1 whose iteration count
  is the given count converted to \<open>uint32\<close>. When that converted count is 0 or above
  100000, \<open>UnmarshalBinary\<close> rejects the encoding of the record with
  \<open>ErrParameter\<close>.
\<close>

theorem constructors_do_not_validate:
  "rnd = Inr f \<longrightarrow>
     (\<exists>r b. New rnd Key pw n = Inr r \<and> PWHash.ver r = 1 \<and> PWHash.prf r = 1 \<and>
        PWHash.iter r = ucast n \<and> MarshalBinary r = Some (b, None) \<and>
        ((ucast n :: uint32) = 0 \<or> (ucast n :: uint32) > 100000 \<longrightarrow>
           UnmarshalBinary pd b = Some (Some ErrParameter, pd))) \<and>
     (\<exists>d b. NewFromPassword rnd Key pw n = Inr d \<and> ver d = 1 \<and> prf d = 1 \<and>
        iter d = ucast n \<and> pack d = Some b \<and>
        ((ucast n :: uint32) = 0 \<or> (ucast n :: uint32) > 100000 \<longrightarrow>
           UnmarshalBinary pd b = Some (Some ErrParameter, pd)))"
proof
  assume rnd: "rnd = Inr f"
  let ?s = "map f [0..<DefaultSaltLen]"
  let ?h = "hashPW Key pw ?s n"
  let ?b = "[v3] @ be32 prfSHA256 @ be32 (ucast n) @ be32 (of_nat (length ?s)) @ ?s @ ?h"
  have dec: "UnmarshalBinary pd ?b = Some (Some ErrParameter, pd)"
    if "(ucast n :: uint32) = 0 \<or> (ucast n :: uint32) > 100000"
    unfolding be32_def append_Cons append_Nil UnmarshalBinary_header u32_be32
    using that by (auto simp add: word_less_1)
  let ?r = "\<lparr>PWHash.ver = v3, prf = prfSHA256, iter = ucast n, salt = ?s, hash = ?h\<rparr>"
  let ?d = "\<lparr>ver = v3, prf = prfSHA256, iter = ucast n, salt = ?s, hash = ?h\<rparr>"
  have 1: "New rnd Key pw n = Inr ?r"
    by (simp add: New_def rand_Read_def rnd)
  have 2: "NewFromPassword rnd Key pw n = Inr ?d"
    by (simp add: NewFromPassword_def rand_Read_def rnd)
  have 3: "MarshalBinary ?r = Some (?b, None)"
    unfolding MarshalBinary_bytes by simp
  have 4: "pack ?d = Some ?b"
    unfolding pack_bytes by simp
  have 5: "PWHash.ver ?r = 1" "PWHash.prf ?r = 1" "PWHash.iter ?r = ucast n"
    "ver ?d = 1" "prf ?d = 1" "iter ?d = ucast n"
    by (simp_all add: v3_def prfSHA256_def)
  show "(\<exists>r b. New rnd Key pw n = Inr r \<and> PWHash.ver r = 1 \<and> PWHash.prf r = 1 \<and>
        PWHash.iter r = ucast n \<and> MarshalBinary r = Some (b, None) \<and>
        ((ucast n :: uint32) = 0 \<or> (ucast n :: uint32) > 100000 \<longrightarrow>
           UnmarshalBinary pd b = Some (Some ErrParameter, pd))) \<and>
     (\<exists>d b. NewFromPassword rnd Key pw n = Inr d \<and> ver d = 1 \<and> prf d = 1 \<and>
        iter d = ucast n \<and> pack d = Some b \<and>
        ((ucast n :: uint32) = 0 \<or> (ucast n :: uint32) > 100000 \<longrightarrow>
           UnmarshalBinary pd b = Some (Some ErrParameter, pd)))"
    using 1 2 3 4 5 dec by blast
qed

text \<open>
  The constructors at the iteration count 0.
\<close>

theorem constructors_do_not_validate_witness:
  "New (Inr (\<lambda>i. 0)) example_Key ''secret'' 0
     = Inr \<lparr>PWHash.ver = 1, prf = 1, iter = 0, salt = replicate 16 0, hash = replicate 32 0\<rparr> \<and>
   MarshalBinary \<lparr>PWHash.ver = 1, prf = 1, iter = 0, salt = replicate 16 0, hash = replicate 32 0\<rparr>
     = Some ([1, 0,0,0,1, 0,0,0,0, 0,0,0,16] @ replicate 48 0, None) \<and>
   NewFromPassword (Inr (\<lambda>i. 0)) example_Key ''secret'' 0
     = Inr \<lparr>ver = 1, prf = 1, iter = 0, salt = replicate 16 0, hash = replicate 32 0\<rparr> \<and>
   pack \<lparr>ver = 1, prf = 1, iter = 0, salt = replicate 16 0, hash = replicate 32 0\<rparr>
     = Some ([1, 0,0,0,1, 0,0,0,0, 0,0,0,16] @ replicate 48 0) \<and>
   UnmarshalBinary zero_PWHash ([1, 0,0,0,1, 0,0,0,0, 0,0,0,16] @ replicate 48 0)
     = Some (Some ErrParameter, zero_PWHash)"
  (is "?n \<and> ?m \<and> ?n' \<and> ?p \<and> ?u")
proof -
  have n: ?n and n': ?n' using example_New [of "''secret''" 0] by simp_all
  have m: ?m
    by (simp add: MarshalBinary_bytes be32_def replicate_add [symmetric])
  have p: ?p
    by (simp add: pack_bytes be32_def replicate_add [symmetric])
  from constructors_do_not_validate [of "Inr (\<lambda>i. 0)" "\<lambda>i. 0" example_Key "''secret''" 0 zero_PWHash]
  obtain r b where "New (Inr (\<lambda>i. 0)) example_Key ''secret'' 0 = Inr r"
    and "MarshalBinary r = Some (b, None)"
    and "UnmarshalBinary zero_PWHash b = Some (Some ErrParameter, zero_PWHash)"
    by auto
  with n m have u: ?u by simp
  show ?thesis using n m n' p u by blast
qed

text \<open>
  C9 as stated fails for a count outside [1,100000] whose low 32 bits are inside:
  \<open>2 ^ 32 + 5\<close> is stored as 5 and the encoding decodes.
\<close>

theorem constructors_truncate_counterexample:
  "100000 < sint (4294967301 :: goint) \<and>
   New (Inr (\<lambda>i. 0)) example_Key ''secret'' 4294967301
     = Inr \<lparr>PWHash.ver = 1, prf = 1, iter = 5, salt = replicate 16 0, hash = replicate 32 0\<rparr> \<and>
   MarshalBinary \<lparr>PWHash.ver = 1, prf = 1, iter = 5, salt = replicate 16 0, hash = replicate 32 0\<rparr>
     = Some ([1, 0,0,0,1, 0,0,0,5, 0,0,0,16] @ replicate 48 0, None) \<and>
   UnmarshalBinary zero_PWHash ([1, 0,0,0,1, 0,0,0,5, 0,0,0,16] @ replicate 48 0)
     = Some (None, \<lparr>PWHash.ver = 1, prf = 1, iter = 5, salt = replicate 16 0, hash = replicate 32 0\<rparr>)"
  (is "?g \<and> ?n \<and> ?m \<and> ?u")
proof -
  have g: ?g by simp
  have "(ucast (4294967301 :: goint) :: uint32) = 5" by simp
  then have n: ?n using example_New(1) [of "''secret''" 4294967301] by simp
  have m: ?m
    by (simp add: MarshalBinary_bytes be32_def replicate_add [symmetric])
  have "u32 0 0 0 5 = 5" "u32 0 0 0 16 = 16" "u32 0 0 0 1 = 1" by (simp_all add: u32_def)
  then have u: ?u
    by (simp add: UnmarshalBinary_header v3_def prfSHA256_def hdrLength_def sha256_Size_def zero_PWHash_def)
  show ?thesis using g n m u by blast
qed

text \<open>
  C10. When decoding the encoded value fails and the random source fails to supply
  the salt, \<open>NewFromPassword\<close> returns an error, \<open>Must\<close> panics on it and
  \<open>VerifyHash\<close> returns nothing.
\<close>

theorem VerifyHash_panics_without_random_bytes:
  "fromBase64 D t = Some (Inl e) \<and> rnd = Inl msg \<longrightarrow>
     NewFromPassword rnd Key [] DefaultIter = Inl (Errorf (''cannot make salt value: '' @ msg)) \<and>
     VerifyHash D rnd Key t p = None"
  by (simp add: VerifyHash_def Must_def NewFromPassword_def rand_Read_def)

text \<open>
  The panic at the text \<open>?\<close>.
\<close>

theorem VerifyHash_panics_without_random_bytes_witness:
  "fromBase64 example_DecodeString ''?'' = Some (Inl (Errorf ''pw data: illegal base64 data at input byte 0'')) \<and>
   NewFromPassword (Inl ''unexpected EOF'') example_Key [] DefaultIter
      = Inl (Errorf ''cannot make salt value: unexpected EOF'') \<and>
   VerifyHash example_DecodeString (Inl ''unexpected EOF'') example_Key ''?'' ''secret'' = None"
  using VerifyHash_panics_without_random_bytes [of example_DecodeString "''?''"
      "Errorf ''pw data: illegal base64 data at input byte 0''" "Inl ''unexpected EOF''" "''unexpected EOF''"
      example_Key "''secret''"]
  by (simp add: example_fromBase64)

end
